theory Spec2Isabelle
  imports Main "HOL-Library.Sublist"
begin

section \<open>Strings\<close>

text \<open>
  A Python \<open>str\<close> is modelled as a \<open>string\<close>; characters are the code points below 256.
  \<open>in_str sub s\<close> is the operator \<open>sub in s\<close>, \<open>strip\<close> is \<open>str.strip()\<close> with no
  argument (it removes the characters for which \<open>str.isspace\<close> holds), \<open>join\<close> is
  \<open>sep.join(xs)\<close> and \<open>str_nat\<close> is the decimal text an f-string gives a non-negative int.
\<close>

fun startswith :: "string \<Rightarrow> string \<Rightarrow> bool" where
  "startswith [] s = True"
| "startswith (p # ps) [] = False"
| "startswith (p # ps) (c # cs) = (p = c \<and> startswith ps cs)"

fun in_str :: "string \<Rightarrow> string \<Rightarrow> bool" where
  "in_str sub [] = (sub = [])"
| "in_str sub (c # cs) = (startswith sub (c # cs) \<or> in_str sub cs)"

definition NL :: char where
  "NL = CHR 0x0A"

definition isspace :: "char \<Rightarrow> bool" where
  "isspace c = ((of_char c :: nat) \<in> {9, 10, 11, 12, 13, 28, 29, 30, 31, 32, 133, 160})"

definition strip :: "string \<Rightarrow> string" where
  "strip s = rev (dropWhile isspace (rev (dropWhile isspace s)))"

fun join :: "string \<Rightarrow> string list \<Rightarrow> string" where
  "join sep [] = []"
| "join sep [x] = x"
| "join sep (x # y # ys) = x @ sep @ join sep (y # ys)"

definition digit_char :: "nat \<Rightarrow> char" where
  "digit_char d = char_of (48 + d)"

fun str_nat :: "nat \<Rightarrow> string" where
  "str_nat n = (if n < 10 then [digit_char n] else str_nat (n div 10) @ [digit_char (n mod 10)])"

declare str_nat.simps [simp del]

section \<open>The site, the parser and the requests made\<close>

text \<open>
  The HTTP client, the HTML parser, \<open>urljoin\<close> and the clock are libraries outside the
  program; they are the parameters of the model, collected in a \<open>world\<close>.

  \<^item> \<open>requests_get w n url\<close> is the text of the response to the request for \<open>url\<close> that is
    made after \<open>n\<close> earlier requests, and \<open>None\<close> when \<open>requests.get\<close> or
    \<open>raise_for_status\<close> raises. The site may answer the same URL differently at
    different times.
  \<^item> \<open>BeautifulSoup w html\<close> is what the fixed selectors of the program find in the
    parsed document: the \<open>.text\<close> of the first \<open>h1\<close>, of the first author element, of
    the first \<open>span.dateTime\<close>; the \<open>.text\<close> of every \<open>p\<close> inside the first
    \<open>div.storyDetails\<close> (\<open>None\<close> when there is no such \<open>div\<close>); the \<open>.text\<close> of every
    breadcrumb anchor; and \<open>link.get('href')\<close> for every anchor in a \<open>cartHolder\<close> card,
    in document order.
\<close>

record soup =
  h1 :: "string option"
  author :: "string option"
  dateTime :: "string option"
  storyDetails :: "string list option"
  breadcrumb :: "string list"
  cartHolder :: "string option list"

record world =
  requests_get :: "nat \<Rightarrow> string \<Rightarrow> string option"
  BeautifulSoup :: "string \<Rightarrow> soup"
  urljoin :: "string \<Rightarrow> string \<Rightarrow> string"
  date_str :: string

text \<open>
  An article is the dict that \<open>extract_article\<close> builds: its items in insertion order.
  The state of a run is the list \<open>articles\<close>, the counter \<open>page\<close>, and the list of the
  URLs requested so far, oldest first. Printing and \<open>time.sleep\<close> change neither.
\<close>

type_synonym article = "(string \<times> string) list"

record state =
  articles :: "article list"
  page :: nat
  requests :: "string list"

definition BASE_URL :: string where
  "BASE_URL = ''https://www.hindustantimes.com''"

definition fetch_html :: "world \<Rightarrow> string \<Rightarrow> state \<Rightarrow> string option \<times> state" where
  "fetch_html w url s =
     (requests_get w (length (requests s)) url, s\<lparr>requests := requests s @ [url]\<rparr>)"

text \<open>\<open>not html\<close> holds for \<open>None\<close> and for the empty string.\<close>

definition not_html :: "string option \<Rightarrow> bool" where
  "not_html html = (case html of None \<Rightarrow> True | Some h \<Rightarrow> h = [])"

definition build_article :: "soup \<Rightarrow> string \<Rightarrow> article" where
  "build_article sp url =
     [(''Title'', case h1 sp of Some t \<Rightarrow> strip t | None \<Rightarrow> ''N/A''),
      (''Author'', case author sp of Some t \<Rightarrow> strip t | None \<Rightarrow> ''N/A''),
      (''Published Time'', case dateTime sp of Some t \<Rightarrow> strip t | None \<Rightarrow> ''N/A''),
      (''URL'', url),
      (''Categories'',
         if breadcrumb sp \<noteq> [] then join '', '' (map strip (tl (breadcrumb sp))) else ''N/A''),
      (''Full Text'',
         case storyDetails sp of
           Some ps \<Rightarrow> join [NL, NL] (map strip ps)
         | None \<Rightarrow> ''N/A'')]"

definition extract_article :: "world \<Rightarrow> string \<Rightarrow> state \<Rightarrow> article option \<times> state" where
  "extract_article w url s =
     (case fetch_html w url s of (html, s') \<Rightarrow>
        if not_html html then (None, s')
        else (Some (build_article (BeautifulSoup w (the html)) url), s'))"

section \<open>The collection loop\<close>

text \<open>
  \<open>visit_link\<close> is the body of \<open>for link in links\<close> after the test that breaks the
  loop; each \<open>continue\<close> returns the state as it is. \<open>a['URL'] == full_url\<close> is the
  lookup of the key \<open>URL\<close> in the dict.
\<close>

definition visit_link :: "world \<Rightarrow> string option \<Rightarrow> state \<Rightarrow> state" where
  "visit_link w link s =
     (case link of
        None \<Rightarrow> s
      | Some href \<Rightarrow>
          if href = [] \<or> in_str ''/photos/'' href \<or> in_str ''/videos/'' href then s
          else
            let full_url = urljoin w BASE_URL href in
            if list_ex (\<lambda>a. map_of a ''URL'' = Some full_url) (articles s) then s
            else
              (case extract_article w full_url s of
                 (None, s') \<Rightarrow> s'
               | (Some article, s') \<Rightarrow> s'\<lparr>articles := articles s' @ [article]\<rparr>))"

fun for_links :: "world \<Rightarrow> int \<Rightarrow> string option list \<Rightarrow> state \<Rightarrow> state" where
  "for_links w max_articles [] s = s"
| "for_links w max_articles (link # links) s =
     (if int (length (articles s)) \<ge> max_articles then s
      else for_links w max_articles links (visit_link w link s))"

definition listing_url :: "string \<Rightarrow> nat \<Rightarrow> string" where
  "listing_url category p =
     (if p = 1 then BASE_URL @ ''/'' @ category @ ''/''
      else BASE_URL @ ''/'' @ category @ ''/page-'' @ str_nat p)"

text \<open>
  One pass through the body of \<open>while len(articles) < max_articles\<close>: it either breaks
  out of the loop or reaches the end of the body, where \<open>page\<close> is incremented.
\<close>

datatype flow = Break state | Continue state

definition while_body :: "world \<Rightarrow> string \<Rightarrow> int \<Rightarrow> state \<Rightarrow> flow" where
  "while_body w category max_articles s =
     (case fetch_html w (listing_url category (page s)) s of (html, s') \<Rightarrow>
        if not_html html then Break s'
        else
          let links = cartHolder (BeautifulSoup w (the html)) in
          if links = [] then Break s'
          else Continue ((for_links w max_articles links s')\<lparr>page := page s' + 1\<rparr>))"

text \<open>
  The loop need not end (a site that answers every page with the same links never
  lets the count grow), so it is a partial function: \<open>None\<close> is a run that never
  leaves the loop.
\<close>

partial_function (option) while_loop :: "world \<Rightarrow> string \<Rightarrow> int \<Rightarrow> state \<Rightarrow> state option" where
  "while_loop w category max_articles s =
     (if int (length (articles s)) < max_articles then
        (case while_body w category max_articles s of
           Break s' \<Rightarrow> Some s'
         | Continue s' \<Rightarrow> while_loop w category max_articles s')
      else Some s)"

declare while_loop.simps [code]

definition init :: state where
  "init = \<lparr>articles = [], page = 1, requests = []\<rparr>"

section \<open>The output writers\<close>

text \<open>
  The text file is the string built by the successive \<open>f.write\<close> calls. For the CSV
  file and the workbook the model keeps the rows handed to the library (\<open>DictWriter\<close>
  fills a missing key with the empty string, \<open>article.get\<close> does the same).
\<close>

definition f_write :: "string \<Rightarrow> string \<Rightarrow> string" where
  "f_write f txt = f @ txt"

fun txt_loop :: "nat \<Rightarrow> article list \<Rightarrow> string \<Rightarrow> string" where
  "txt_loop idx [] f = f"
| "txt_loop idx (article # rest) f =
     (let f1 = f_write f (''ARTICLE #'' @ str_nat idx @ [NL]);
          f2 = f_write f1 (replicate 40 (CHR ''='') @ [NL]);
          f3 = foldl (\<lambda>g (key, val). f_write g (key @ '':'' @ [NL] @ val @ [NL, NL])) f2 article;
          f4 = f_write f3 (replicate 80 (CHR ''-'') @ [NL, NL])
      in txt_loop (idx + 1) rest f4)"

definition save_to_txt :: "article list \<Rightarrow> string" where
  "save_to_txt arts = txt_loop 1 arts []"

definition keys :: "string list" where
  "keys = [''Title'', ''Author'', ''Published Time'', ''URL'', ''Categories'', ''Full Text'']"

definition get_or :: "article \<Rightarrow> string \<Rightarrow> string \<Rightarrow> string" where
  "get_or a key dflt = (case map_of a key of Some v \<Rightarrow> v | None \<Rightarrow> dflt)"

definition save_to_csv :: "article list \<Rightarrow> string list list" where
  "save_to_csv arts =
     keys # concat (map (\<lambda>a. [map (\<lambda>k. get_or a k []) keys, map (\<lambda>k. get_or [] k []) keys]) arts)"

definition save_to_excel :: "article list \<Rightarrow> string list list" where
  "save_to_excel arts =
     keys # concat (map (\<lambda>a. [map (\<lambda>k. get_or a k []) keys, map (\<lambda>_. replicate 10 (CHR ''-'')) keys]) arts)"

datatype content = Csv "string list list" | Txt string | Xlsx "string list list"

definition save :: "string \<Rightarrow> article list \<Rightarrow> content" where
  "save file_type arts =
     (if file_type = ''csv'' then Csv (save_to_csv arts)
      else if file_type = ''txt'' then Txt (save_to_txt arts)
      else if file_type = ''xlsx'' then Xlsx (save_to_excel arts)
      else Csv (save_to_csv arts))"

text \<open>
  \<open>scrape_articles\<close> returns nothing in the source; the model returns what it leaves
  behind: the state at the end of the loop, the name of the file and what was saved.
\<close>

record run =
  final :: state
  filename :: string
  saved :: content

definition scrape_articles :: "world \<Rightarrow> string \<Rightarrow> int \<Rightarrow> string \<Rightarrow> run option" where
  "scrape_articles w category max_articles file_type =
     (case while_loop w category max_articles init of
        None \<Rightarrow> None
      | Some s \<Rightarrow>
          Some \<lparr>final = s,
                filename = ''hindustan_times_'' @ category @ ''_'' @ date_str w @ ''.'' @ file_type,
                saved = save file_type (articles s)\<rparr>)"

section \<open>The points a run passes through\<close>

text \<open>
  \<open>pass\<close> is one full iteration of the while loop (the test holds and the body
  reaches its end); \<open>exits s t\<close> says that the loop, at its head in \<open>s\<close>, ends in \<open>t\<close>
  (the test fails, or the body breaks). \<open>at_head\<close> are the states in which a run
  evaluates the test of the while loop, \<open>in_for\<close> the states after any number of
  candidates of a listing page.
\<close>

definition pass :: "world \<Rightarrow> string \<Rightarrow> int \<Rightarrow> state \<Rightarrow> state \<Rightarrow> bool" where
  "pass w category max_articles s s' \<longleftrightarrow>
     int (length (articles s)) < max_articles \<and> while_body w category max_articles s = Continue s'"

definition exits :: "world \<Rightarrow> string \<Rightarrow> int \<Rightarrow> state \<Rightarrow> state \<Rightarrow> bool" where
  "exits w category max_articles s t \<longleftrightarrow>
     (if int (length (articles s)) < max_articles
      then while_body w category max_articles s = Break t else t = s)"

definition at_head :: "world \<Rightarrow> string \<Rightarrow> int \<Rightarrow> state \<Rightarrow> bool" where
  "at_head w category max_articles s \<longleftrightarrow> (pass w category max_articles)\<^sup>*\<^sup>* init s"

definition in_for :: "world \<Rightarrow> string \<Rightarrow> int \<Rightarrow> state \<Rightarrow> bool" where
  "in_for w category max_articles t \<longleftrightarrow>
     (\<exists>s k. at_head w category max_articles s \<and> int (length (articles s)) < max_articles \<and>
        (case fetch_html w (listing_url category (page s)) s of (html, s') \<Rightarrow>
           \<not> not_html html \<and>
           t = for_links w max_articles (take k (cartHolder (BeautifulSoup w (the html)))) s'))"

text \<open>The URL of every accumulated record, and the two invariants of the loop.\<close>

definition urls :: "state \<Rightarrow> string option list" where
  "urls s = map (\<lambda>a. map_of a ''URL'') (articles s)"

definition bounded :: "int \<Rightarrow> state \<Rightarrow> bool" where
  "bounded m s \<longleftrightarrow> int (length (articles s)) \<le> m"

definition unique_urls :: "state \<Rightarrow> bool" where
  "unique_urls s \<longleftrightarrow> distinct (urls s) \<and> None \<notin> set (urls s)"

text \<open>A candidate that passes the filter on \<open>href\<close>.\<close>

definition is_article_href :: "string \<Rightarrow> bool" where
  "is_article_href href \<longleftrightarrow>
     href \<noteq> [] \<and> \<not> in_str ''/photos/'' href \<and> \<not> in_str ''/videos/'' href"

section \<open>The layout of the text file\<close>

text \<open>
  The layout of the text file in the words of the specification: the lines of the
  record number \<open>i\<close>, and the file as the lines of all records, numbered from 1.
\<close>

definition spec_record_lines :: "nat \<Rightarrow> article \<Rightarrow> string list" where
  "spec_record_lines i a =
     [''ARTICLE #'' @ str_nat i, replicate 40 (CHR ''='')] @
     concat (map (\<lambda>(field, v). [field @ '':'', v, []]) a) @
     [replicate 80 (CHR ''-''), []]"

definition unlines :: "string list \<Rightarrow> string" where
  "unlines ls = concat (map (\<lambda>l. l @ [NL]) ls)"

definition spec_txt :: "article list \<Rightarrow> string" where
  "spec_txt arts = unlines (concat (map (\<lambda>(i, a). spec_record_lines i a) (enumerate 1 arts)))"

section \<open>A small site to run the program on\<close>

text \<open>
  \<open>site down p1 p2 p3\<close> is a site with three listing pages for the category
  \<open>business\<close>, whose cards link to \<open>p1\<close>, \<open>p2\<close> and \<open>p3\<close>; every other URL is an
  article page. The request number \<open>n\<close> for \<open>url\<close> fails when \<open>down n url\<close> holds.
  \<open>urljoin\<close> is right for the links used here, which are paths from the root.
\<close>

definition article_soup :: soup where
  "article_soup =
     \<lparr>h1 = Some '' Budget day '', author = None, dateTime = Some ''Feb 01, 2024'',
      storyDetails = Some [''First. '', ''Second.''], breadcrumb = [''Home'', ''Business''],
      cartHolder = []\<rparr>"

definition listing_soup :: "string option list \<Rightarrow> soup" where
  "listing_soup links =
     \<lparr>h1 = None, author = None, dateTime = None, storyDetails = None, breadcrumb = [],
      cartHolder = links\<rparr>"

definition site ::
  "(nat \<Rightarrow> string \<Rightarrow> bool) \<Rightarrow> string option list \<Rightarrow> string option list \<Rightarrow>
     string option list \<Rightarrow> world" where
  "site down p1 p2 p3 =
     \<lparr>requests_get = (\<lambda>n url.
        if down n url then None
        else if url = ''https://www.hindustantimes.com/business/'' then Some ''1''
        else if url = ''https://www.hindustantimes.com/business/page-2'' then Some ''2''
        else if url = ''https://www.hindustantimes.com/business/page-3'' then Some ''3''
        else Some ''article''),
      BeautifulSoup = (\<lambda>html.
        if html = ''1'' then listing_soup p1
        else if html = ''2'' then listing_soup p2
        else if html = ''3'' then listing_soup p3
        else article_soup),
      urljoin = (\<lambda>base href. base @ href),
      date_str = ''2024-02-01''\<rparr>"

definition record_of :: "string \<Rightarrow> article" where
  "record_of path = build_article article_soup (''https://www.hindustantimes.com'' @ path)"

definition demo :: world where
  "demo = site (\<lambda>n url. False)
     [Some ''/a1'', None, Some ''/photos/x'', Some ''/a2'', Some ''/a1'']
     [Some ''/a2'', Some ''/a3'', Some ''/a4'']
     []"

definition demo_mid :: state where
  "demo_mid =
     \<lparr>articles = [record_of ''/a1''], page = 1,
      requests = [''https://www.hindustantimes.com/business/'', ''https://www.hindustantimes.com/a1'']\<rparr>"

definition demo_page2 :: state where
  "demo_page2 =
     \<lparr>articles = [record_of ''/a1'', record_of ''/a2''], page = 2,
      requests = [''https://www.hindustantimes.com/business/'', ''https://www.hindustantimes.com/a1'',
                  ''https://www.hindustantimes.com/a2'']\<rparr>"

definition demo_final :: state where
  "demo_final =
     \<lparr>articles = [record_of ''/a1'', record_of ''/a2'', record_of ''/a3''], page = 3,
      requests = [''https://www.hindustantimes.com/business/'', ''https://www.hindustantimes.com/a1'',
                  ''https://www.hindustantimes.com/a2'', ''https://www.hindustantimes.com/business/page-2'',
                  ''https://www.hindustantimes.com/a3'']\<rparr>"

definition page2_down :: world where
  "page2_down = site (\<lambda>n url. url = ''https://www.hindustantimes.com/business/page-2'')
     [Some ''/a1'', Some ''/a2''] [Some ''/a3''] []"

definition flaky :: world where
  "flaky = site (\<lambda>n url. n = 1) [Some ''/a1'', Some ''/a1'', Some ''/a2''] [] []"

definition flaky_s0 :: state where
  "flaky_s0 = \<lparr>articles = [], page = 1, requests = [''https://www.hindustantimes.com/business/'']\<rparr>"

definition crumbs :: "string list \<Rightarrow> world" where
  "crumbs cs = demo\<lparr>BeautifulSoup := (\<lambda>html. article_soup\<lparr>breadcrumb := cs\<rparr>)\<rparr>"

definition three_pages :: world where
  "three_pages = site (\<lambda>n url. False)
     [Some ''/a1'', Some ''/a2'', Some ''/a3'', Some ''/a4'', Some ''/a5'']
     [Some ''/b1'', Some ''/b2'', Some ''/b3'', Some ''/b4'', Some ''/b5'']
     [Some ''/c1'', Some ''/c2'', Some ''/c3'', Some ''/c4'', Some ''/c5'']"

section \<open>Facts about the strings\<close>

lemma startswith_prefix: "startswith p s \<longleftrightarrow> prefix p s"
  by (induction p s rule: startswith.induct) simp_all

lemma in_str_sublist: "in_str sub s \<longleftrightarrow> sublist sub s"
  by (induction s) (simp_all add: startswith_prefix sublist_Cons_right)

lemma str_nat_digit: "n < 10 \<Longrightarrow> str_nat n = [digit_char n]"
  by (simp add: str_nat.simps)

section \<open>Facts about one request, one candidate, one page\<close>

lemma fetch_html_simps [simp]:
  "fst (fetch_html w url s) = requests_get w (length (requests s)) url"
  "snd (fetch_html w url s) = s\<lparr>requests := requests s @ [url]\<rparr>"
  by (simp_all add: fetch_html_def)

lemma extract_article_state [simp]:
  "snd (extract_article w url s) = s\<lparr>requests := requests s @ [url]\<rparr>"
  by (simp add: extract_article_def fetch_html_def)

lemma extract_article_result:
  "fst (extract_article w url s) =
     (if not_html (requests_get w (length (requests s)) url) then None
      else Some (build_article (BeautifulSoup w (the (requests_get w (length (requests s)) url))) url))"
  by (simp add: extract_article_def fetch_html_def)

lemma build_article_URL [simp]: "map_of (build_article sp url) ''URL'' = Some url"
  by (simp add: build_article_def)

lemma build_article_keys [simp]: "map fst (build_article sp url) = keys"
  by (simp add: build_article_def keys_def)

lemma visit_link_articles:
  "articles (visit_link w link s) = articles s \<or>
   (\<exists>href sp. link = Some href \<and> Some (urljoin w BASE_URL href) \<notin> set (urls s) \<and>
      articles (visit_link w link s) = articles s @ [build_article sp (urljoin w BASE_URL href)])"
  by (auto simp: visit_link_def Let_def urls_def list_ex_iff extract_article_def fetch_html_def
      split: option.splits prod.splits if_splits)

lemma visit_link_page [simp]: "page (visit_link w link s) = page s"
  by (auto simp: visit_link_def Let_def extract_article_def fetch_html_def
      split: option.splits prod.splits if_splits)

lemma for_links_append:
  "for_links w m (xs @ ys) s = for_links w m ys (for_links w m xs s)"
proof (induction xs arbitrary: s)
  case Nil
  show ?case by simp
next
  case (Cons x xs)
  show ?case
  proof (cases "m \<le> int (length (articles s))")
    case True
    then show ?thesis by (cases ys) simp_all
  next
    case False
    then show ?thesis using Cons.IH by simp
  qed
qed

lemma for_links_page [simp]: "page (for_links w m links s) = page s"
  by (induction links arbitrary: s) simp_all

lemma for_links_bounded: "bounded m s \<Longrightarrow> bounded m (for_links w m links s)"
proof (induction links arbitrary: s)
  case Nil
  then show ?case by simp
next
  case (Cons link links)
  show ?case
  proof (cases "m \<le> int (length (articles s))")
    case True
    with Cons.prems show ?thesis by simp
  next
    case False
    have "bounded m (visit_link w link s)"
      using False visit_link_articles [of w link s] by (auto simp: bounded_def)
    with False Cons.IH show ?thesis by simp
  qed
qed

lemma visit_link_unique: "unique_urls s \<Longrightarrow> unique_urls (visit_link w link s)"
  using visit_link_articles [of w link s] by (auto simp: unique_urls_def urls_def)

lemma for_links_unique: "unique_urls s \<Longrightarrow> unique_urls (for_links w m links s)"
  by (induction links arbitrary: s) (simp_all add: visit_link_unique)

lemma while_body_cases:
  "while_body w c m s = Break (s\<lparr>requests := requests s @ [listing_url c (page s)]\<rparr>) \<or>
   (\<exists>links. while_body w c m s =
      Continue ((for_links w m links (s\<lparr>requests := requests s @ [listing_url c (page s)]\<rparr>))
                  \<lparr>page := Suc (page s)\<rparr>))"
  by (auto simp: while_body_def fetch_html_def Let_def)

lemma bounded_update [simp]:
  "bounded m (s\<lparr>requests := r\<rparr>) = bounded m s"
  "bounded m (s\<lparr>page := p\<rparr>) = bounded m s"
  by (simp_all add: bounded_def)

lemma unique_urls_update [simp]:
  "unique_urls (s\<lparr>requests := r\<rparr>) = unique_urls s"
  "unique_urls (s\<lparr>page := p\<rparr>) = unique_urls s"
  by (simp_all add: unique_urls_def urls_def)

lemma while_body_bounded:
  assumes "bounded m s" and "while_body w c m s = Continue s' \<or> while_body w c m s = Break s'"
  shows "bounded m s'"
  using assms while_body_cases [of w c m s] for_links_bounded [of m "s\<lparr>requests := requests s @ [listing_url c (page s)]\<rparr>" w] by auto

lemma while_body_unique:
  assumes "unique_urls s" and "while_body w c m s = Continue s' \<or> while_body w c m s = Break s'"
  shows "unique_urls s'"
  using assms while_body_cases [of w c m s] for_links_unique [of "s\<lparr>requests := requests s @ [listing_url c (page s)]\<rparr>" w m] by auto

lemma passes_bounded: "(pass w c m)\<^sup>*\<^sup>* s u \<Longrightarrow> bounded m s \<Longrightarrow> bounded m u"
  by (induction rule: rtranclp_induct) (auto simp: pass_def dest: while_body_bounded)

lemma passes_unique: "(pass w c m)\<^sup>*\<^sup>* s u \<Longrightarrow> unique_urls s \<Longrightarrow> unique_urls u"
  by (induction rule: rtranclp_induct) (auto simp: pass_def dest: while_body_unique)

lemma while_loop_sound:
  "while_loop w c m s = Some t \<Longrightarrow> \<exists>u. (pass w c m)\<^sup>*\<^sup>* s u \<and> exits w c m u t"
proof (induction rule: while_loop.raw_induct [rotated 1, consumes 1])
  case (1 loop w c m s t)
  show ?case
  proof (cases "int (length (articles s)) < m")
    case False
    with 1(2) have "exits w c m s t" by (simp add: exits_def)
    then show ?thesis by blast
  next
    case True
    show ?thesis
    proof (cases "while_body w c m s")
      case (Break s')
      with True 1(2) have "exits w c m s t" by (simp add: exits_def)
      then show ?thesis by blast
    next
      case (Continue s')
      with True 1(2) have "loop w c m s' = Some t" by simp
      from 1(1) [OF this] obtain u where u: "(pass w c m)\<^sup>*\<^sup>* s' u" "exits w c m u t" by blast
      from True Continue have "pass w c m s s'" by (simp add: pass_def)
      with u show ?thesis by (blast intro: converse_rtranclp_into_rtranclp)
    qed
  qed
qed

lemma while_loop_complete:
  "(pass w c m)\<^sup>*\<^sup>* s u \<Longrightarrow> exits w c m u t \<Longrightarrow> while_loop w c m s = Some t"
proof (induction rule: converse_rtranclp_induct)
  case base
  then show ?case
    by (subst while_loop.simps) (auto simp: exits_def split: if_splits)
next
  case (step s s')
  then show ?case
    by (subst while_loop.simps) (simp add: pass_def)
qed

lemma at_head_bounded: "at_head w c m s \<Longrightarrow> 0 \<le> m \<Longrightarrow> bounded m s"
  unfolding at_head_def by (erule passes_bounded) (simp add: bounded_def init_def)

lemma in_for_bounded: "in_for w c m t \<Longrightarrow> bounded m t"
  unfolding in_for_def
  by (auto simp: fetch_html_def bounded_def [symmetric] intro!: for_links_bounded)
     (simp add: bounded_def)

lemma exits_bounded: "exits w c m u t \<Longrightarrow> bounded m u \<Longrightarrow> bounded m t"
  by (auto simp: exits_def dest: while_body_bounded split: if_splits)

lemma while_loop_bounded: "while_loop w c m s = Some t \<Longrightarrow> bounded m s \<Longrightarrow> bounded m t"
  by (blast dest: while_loop_sound passes_bounded exits_bounded)

lemma seen_iff:
  "list_ex (\<lambda>a. map_of a ''URL'' = Some u) (articles s) \<longleftrightarrow> Some u \<in> set (urls s)"
  by (force simp: list_ex_iff urls_def image_iff)

lemma visit_link_skip:
  "link = None \<or> (\<exists>href. link = Some href \<and> \<not> is_article_href href) \<Longrightarrow> visit_link w link s = s"
  by (auto simp: visit_link_def is_article_href_def)

lemma visit_link_seen:
  "Some (urljoin w BASE_URL href) \<in> set (urls s) \<Longrightarrow> visit_link w (Some href) s = s"
  by (simp add: visit_link_def Let_def seen_iff)

lemma visit_link_fail:
  assumes "is_article_href href" and "Some (urljoin w BASE_URL href) \<notin> set (urls s)"
    and "not_html (requests_get w (length (requests s)) (urljoin w BASE_URL href))"
  shows "visit_link w (Some href) s = s\<lparr>requests := requests s @ [urljoin w BASE_URL href]\<rparr>"
  using assms
  by (simp add: visit_link_def Let_def seen_iff is_article_href_def extract_article_def fetch_html_def)

lemma visit_link_ok:
  assumes "is_article_href href" and "Some (urljoin w BASE_URL href) \<notin> set (urls s)"
    and "\<not> not_html (requests_get w (length (requests s)) (urljoin w BASE_URL href))"
  shows "visit_link w (Some href) s =
     s\<lparr>requests := requests s @ [urljoin w BASE_URL href],
       articles := articles s @
         [build_article
            (BeautifulSoup w (the (requests_get w (length (requests s)) (urljoin w BASE_URL href))))
            (urljoin w BASE_URL href)]\<rparr>"
  using assms
  by (simp add: visit_link_def Let_def seen_iff is_article_href_def extract_article_def fetch_html_def)

lemma visit_link_requests:
  assumes "is_article_href href" and "Some (urljoin w BASE_URL href) \<notin> set (urls s)"
  shows "requests (visit_link w (Some href) s) = requests s @ [urljoin w BASE_URL href]"
  using visit_link_fail [OF assms] visit_link_ok [OF assms]
  by (cases "not_html (requests_get w (length (requests s)) (urljoin w BASE_URL href))") simp_all

lemma for_links_done:
  "max_articles \<le> int (length (articles s)) \<Longrightarrow> for_links w max_articles links s = s"
  by (cases links) simp_all

lemma for_links_step:
  "int (length (articles s)) < max_articles \<Longrightarrow>
   for_links w max_articles (link # links) s = for_links w max_articles links (visit_link w link s)"
  by simp

lemma at_head_unique: "at_head w c m s \<Longrightarrow> unique_urls s"
  unfolding at_head_def by (erule passes_unique) (simp add: unique_urls_def urls_def init_def)

lemma in_for_unique: "in_for w c m t \<Longrightarrow> unique_urls t"
  unfolding in_for_def
  by (auto simp: fetch_html_def dest!: at_head_unique intro!: for_links_unique)

lemma exits_unique: "exits w c m u t \<Longrightarrow> unique_urls u \<Longrightarrow> unique_urls t"
  by (auto simp: exits_def dest: while_body_unique split: if_splits)

lemma while_loop_unique: "while_loop w c m s = Some t \<Longrightarrow> unique_urls s \<Longrightarrow> unique_urls t"
  by (blast dest: while_loop_sound passes_unique exits_unique)

lemma scrape_articles_Some:
  "scrape_articles w c m ft = Some r \<longleftrightarrow>
     (\<exists>t. while_loop w c m init = Some t \<and>
        r = \<lparr>final = t, filename = ''hindustan_times_'' @ c @ ''_'' @ date_str w @ ''.'' @ ft,
             saved = save ft (articles t)\<rparr>)"
  by (auto simp: scrape_articles_def split: option.splits)

lemma pass_page: "pass w c m s s' \<Longrightarrow> page s' = Suc (page s)"
  using while_body_cases [of w c m s] by (auto simp: pass_def)

lemma while_body_Break:
  "not_html (requests_get w (length (requests s)) (listing_url c (page s))) \<Longrightarrow>
   while_body w c m s = Break (s\<lparr>requests := requests s @ [listing_url c (page s)]\<rparr>)"
  by (simp add: while_body_def fetch_html_def)

lemma while_body_Continue:
  "\<not> not_html (requests_get w (length (requests s)) (listing_url c (page s))) \<Longrightarrow>
   cartHolder (BeautifulSoup w (the (requests_get w (length (requests s)) (listing_url c (page s))))) \<noteq> [] \<Longrightarrow>
   while_body w c m s =
     Continue ((for_links w m
        (cartHolder (BeautifulSoup w (the (requests_get w (length (requests s)) (listing_url c (page s))))))
        (s\<lparr>requests := requests s @ [listing_url c (page s)]\<rparr>))\<lparr>page := Suc (page s)\<rparr>)"
  by (simp add: while_body_def fetch_html_def Let_def)

lemma extract_article_Some:
  "fst (extract_article w url s) = Some a \<longleftrightarrow>
     \<not> not_html (fst (fetch_html w url s)) \<and>
     a = build_article (BeautifulSoup w (the (fst (fetch_html w url s)))) url"
  by (auto simp: extract_article_result)

lemma urls_update [simp]:
  "urls (s\<lparr>requests := r\<rparr>) = urls s"
  "urls (s\<lparr>page := p\<rparr>) = urls s"
  by (simp_all add: urls_def)

lemma length_urls [simp]: "length (urls s) = length (articles s)"
  by (simp add: urls_def)

lemma for_links_fresh:
  assumes "\<forall>h\<in>set hs. is_article_href h"
    and "distinct (map (urljoin w BASE_URL) hs)"
    and "\<forall>h\<in>set hs. Some (urljoin w BASE_URL h) \<notin> set (urls s)"
    and "\<forall>h\<in>set hs. \<forall>n. \<not> not_html (requests_get w n (urljoin w BASE_URL h))"
    and "int (length (articles s) + length hs) \<le> m"
  shows "requests (for_links w m (map Some hs) s) = requests s @ map (urljoin w BASE_URL) hs \<and>
         urls (for_links w m (map Some hs) s) = urls s @ map (\<lambda>h. Some (urljoin w BASE_URL h)) hs"
  using assms
proof (induction hs arbitrary: s)
  case Nil
  show ?case by simp
next
  case (Cons h hs)
  let ?u = "urljoin w BASE_URL h"
  let ?s' = "visit_link w (Some h) s"
  have g: "int (length (articles s)) < m" using Cons.prems(5) by simp
  have v: "?s' = s\<lparr>requests := requests s @ [?u],
       articles := articles s @
         [build_article (BeautifulSoup w (the (requests_get w (length (requests s)) ?u))) ?u]\<rparr>"
    using Cons.prems(1,3,4) by (intro visit_link_ok) simp_all
  have r: "requests ?s' = requests s @ [?u]" and u: "urls ?s' = urls s @ [Some ?u]"
    by (simp_all add: v urls_def)
  have "requests (for_links w m (map Some hs) ?s') = requests ?s' @ map (urljoin w BASE_URL) hs \<and>
        urls (for_links w m (map Some hs) ?s') = urls ?s' @ map (\<lambda>h. Some (urljoin w BASE_URL h)) hs"
  proof (rule Cons.IH)
    show "\<forall>h\<in>set hs. is_article_href h" using Cons.prems(1) by simp
    show "distinct (map (urljoin w BASE_URL) hs)" using Cons.prems(2) by simp
    show "\<forall>k\<in>set hs. Some (urljoin w BASE_URL k) \<notin> set (urls ?s')"
    proof
      fix k assume k: "k \<in> set hs"
      from Cons.prems(2) have "?u \<notin> urljoin w BASE_URL ` set hs" by simp
      with k have "urljoin w BASE_URL k \<noteq> ?u" by (metis imageI)
      moreover from Cons.prems(3) k have "Some (urljoin w BASE_URL k) \<notin> set (urls s)" by simp
      ultimately show "Some (urljoin w BASE_URL k) \<notin> set (urls ?s')" by (simp add: u)
    qed
    show "\<forall>h\<in>set hs. \<forall>n. \<not> not_html (requests_get w n (urljoin w BASE_URL h))"
      using Cons.prems(4) by simp
    show "int (length (articles ?s') + length hs) \<le> m"
      using Cons.prems(5) by (simp add: v)
  qed
  then show ?case using g by (simp add: r u)
qed

lemma listing_url_3_not_1_2:
  "listing_url c 3 \<noteq> listing_url c 1" "listing_url c 3 \<noteq> listing_url c 2"
  by (simp_all add: listing_url_def str_nat_digit digit_char_def)

section \<open>The text writer\<close>

lemma write_items:
  "foldl (\<lambda>g (key, val). f_write g (key @ '':'' @ [NL] @ val @ [NL, NL])) f a =
   f @ unlines (concat (map (\<lambda>(field, v). [field @ '':'', v, []]) a))"
  by (induction a arbitrary: f) (auto simp: f_write_def unlines_def)

lemma unlines_append [simp]: "unlines (xs @ ys) = unlines xs @ unlines ys"
  by (simp add: unlines_def)

lemma txt_loop_lines:
  "txt_loop idx arts f =
   f @ unlines (concat (map (\<lambda>(i, a). spec_record_lines i a) (enumerate idx arts)))"
proof (induction arts arbitrary: idx f)
  case Nil
  show ?case by (simp add: unlines_def)
next
  case (Cons a arts)
  have "txt_loop idx (a # arts) f =
      txt_loop (Suc idx) arts (f @ unlines (spec_record_lines idx a))"
    unfolding txt_loop.simps Let_def write_items
    by (simp add: f_write_def spec_record_lines_def unlines_def)
  then show ?case by (simp add: Cons.IH)
qed

section \<open>The run on the small site\<close>

lemma demo_pass1: "pass demo ''business'' 3 init demo_page2"
  unfolding pass_def by code_simp

lemma demo_pass2: "pass demo ''business'' 3 demo_page2 demo_final"
  unfolding pass_def by code_simp

lemma demo_at_head: "at_head demo ''business'' 3 demo_page2"
  unfolding at_head_def using demo_pass1 by (rule r_into_rtranclp)

lemma demo_in_for: "in_for demo ''business'' 3 demo_mid"
proof -
  have "at_head demo ''business'' 3 init" by (simp add: at_head_def)
  moreover have "int (length (articles init)) < 3" by code_simp
  moreover have "case fetch_html demo (listing_url ''business'' (page init)) init of (html, s') \<Rightarrow>
       \<not> not_html html \<and>
       demo_mid = for_links demo 3 (take 2 (cartHolder (BeautifulSoup demo (the html)))) s'"
    by code_simp
  ultimately show ?thesis unfolding in_for_def
    by (intro exI [of _ init] exI [of _ "2::nat"] conjI)
qed

lemma demo_run:
  "scrape_articles demo ''business'' 3 ''txt'' =
     Some \<lparr>final = demo_final, filename = ''hindustan_times_business_2024-02-01.txt'',
           saved = Txt (save_to_txt (articles demo_final))\<rparr>"
  by code_simp

section \<open>The claims\<close>

text \<open>
  C1. For every category and every target count \<open>N \<ge> 1\<close>, the accumulated sequence never
  holds more than \<open>N\<close> records: not when the test of the while loop is evaluated, not
  after any number of candidates of a listing page, and not in the sequence that
  \<open>scrape_articles\<close> hands to the writer, whose length is between 0 and \<open>N\<close>.
\<close>

theorem accumulated_at_most_target:
  assumes "1 \<le> N"
  shows "(at_head w c N s \<longrightarrow> int (length (articles s)) \<le> N) \<and>
         (in_for w c N t \<longrightarrow> int (length (articles t)) \<le> N) \<and>
         (scrape_articles w c N ft = Some r \<longrightarrow>
            0 \<le> int (length (articles (final r))) \<and> int (length (articles (final r))) \<le> N)"
proof -
  have "bounded N init" using assms by (simp add: bounded_def init_def)
  then have "while_loop w c N init = Some u \<Longrightarrow> bounded N u" for u
    by (rule while_loop_bounded [rotated])
  then have "scrape_articles w c N ft = Some r \<longrightarrow> bounded N (final r)"
    by (auto simp: scrape_articles_def split: option.splits)
  with assms at_head_bounded [of w c N s] in_for_bounded [of w c N t]
  show ?thesis by (auto simp: bounded_def)
qed

theorem accumulated_at_most_target_witness:
  "(1::int) \<le> 3 \<and>
   at_head demo ''business'' 3 demo_page2 \<and> int (length (articles demo_page2)) \<le> 3 \<and>
   in_for demo ''business'' 3 demo_mid \<and> int (length (articles demo_mid)) \<le> 3 \<and>
   scrape_articles demo ''business'' 3 ''txt'' =
     Some \<lparr>final = demo_final, filename = ''hindustan_times_business_2024-02-01.txt'',
           saved = Txt (save_to_txt (articles demo_final))\<rparr> \<and>
   length (articles demo_final) = 3"
proof -
  have h: "(1::int) \<le> 3" by simp
  have "length (articles demo_final) = 3" by (simp add: demo_final_def)
  with h demo_at_head demo_in_for demo_run
    accumulated_at_most_target [OF h, of demo "''business''" demo_page2 demo_mid "''txt''"
          "\<lparr>final = demo_final, filename = ''hindustan_times_business_2024-02-01.txt'',
           saved = Txt (save_to_txt (articles demo_final))\<rparr>"]
  show ?thesis by simp
qed

text \<open>
  C2. The records accumulated by \<open>scrape_articles\<close> have pairwise distinct URL fields (and
  each has one), at every point of the run. A candidate whose resolved URL is equal,
  as a string, to the URL of an accumulated record leaves the state as it is: no
  request is made and nothing is appended. A candidate that passes the filter and
  whose resolved URL is equal to none of them is requested, however small the
  difference.
\<close>

theorem accumulated_urls_distinct:
  "(at_head w c m s \<longrightarrow> unique_urls s) \<and>
   (in_for w c m t \<longrightarrow> unique_urls t) \<and>
   (scrape_articles w c m ft = Some r \<longrightarrow> unique_urls (final r)) \<and>
   (Some (urljoin w BASE_URL href) \<in> set (urls u) \<longrightarrow> visit_link w (Some href) u = u) \<and>
   (is_article_href href' \<and> Some (urljoin w BASE_URL href') \<notin> set (urls u) \<longrightarrow>
      requests (visit_link w (Some href') u) = requests u @ [urljoin w BASE_URL href'])"
proof -
  have "unique_urls init" by (simp add: unique_urls_def urls_def init_def)
  then have "scrape_articles w c m ft = Some r \<longrightarrow> unique_urls (final r)"
    by (auto simp: scrape_articles_Some dest: while_loop_unique)
  then show ?thesis
    by (simp add: at_head_unique in_for_unique visit_link_seen visit_link_requests)
qed

theorem accumulated_urls_distinct_witness:
  "at_head demo ''business'' 3 demo_page2 \<and> unique_urls demo_page2 \<and>
   in_for demo ''business'' 3 demo_mid \<and> unique_urls demo_mid \<and>
   scrape_articles demo ''business'' 3 ''txt'' =
     Some \<lparr>final = demo_final, filename = ''hindustan_times_business_2024-02-01.txt'',
           saved = Txt (save_to_txt (articles demo_final))\<rparr> \<and>
   unique_urls demo_final \<and>
   urls demo_final = [Some ''https://www.hindustantimes.com/a1'',
     Some ''https://www.hindustantimes.com/a2'', Some ''https://www.hindustantimes.com/a3''] \<and>
   Some (urljoin demo BASE_URL ''/a1'') \<in> set (urls demo_mid) \<and>
   visit_link demo (Some ''/a1'') demo_mid = demo_mid \<and>
   is_article_href ''/a1/'' \<and> Some (urljoin demo BASE_URL ''/a1/'') \<notin> set (urls demo_mid) \<and>
   requests (visit_link demo (Some ''/a1/'') demo_mid) =
     requests demo_mid @ [''https://www.hindustantimes.com/a1/'']"
proof -
  have u: "urls demo_final = [Some ''https://www.hindustantimes.com/a1'',
     Some ''https://www.hindustantimes.com/a2'', Some ''https://www.hindustantimes.com/a3'']"
    by code_simp
  have seen: "Some (urljoin demo BASE_URL ''/a1'') \<in> set (urls demo_mid)"
    by code_simp
  have new: "is_article_href ''/a1/''" "Some (urljoin demo BASE_URL ''/a1/'') \<notin> set (urls demo_mid)"
    by code_simp+
  have j: "urljoin demo BASE_URL ''/a1/'' = ''https://www.hindustantimes.com/a1/''"
    by code_simp
  from u seen new j demo_at_head demo_in_for demo_run
    accumulated_urls_distinct [of demo "''business''" 3 demo_page2 demo_mid "''txt''"
          "\<lparr>final = demo_final, filename = ''hindustan_times_business_2024-02-01.txt'',
           saved = Txt (save_to_txt (articles demo_final))\<rparr>" "''/a1''" demo_mid "''/a1/''"]
  show ?thesis by simp
qed

text \<open>
  C3. When the request for a listing page fails (an exception, or an empty document)
  while the target is unmet, the while loop stops at once and \<open>scrape_articles\<close> returns
  normally and saves the records accumulated up to that page; the only change is
  the request made. In particular, when page 1 was processed and the request for page 2
  fails, what is saved is what was accumulated through page 1.
\<close>

theorem listing_failure_stops_loop:
  "(at_head w c m s \<and> int (length (articles s)) < m \<and>
    not_html (fst (fetch_html w (listing_url c (page s)) s)) \<longrightarrow>
      scrape_articles w c m ft =
        Some \<lparr>final = s\<lparr>requests := requests s @ [listing_url c (page s)]\<rparr>,
              filename = ''hindustan_times_'' @ c @ ''_'' @ date_str w @ ''.'' @ ft,
              saved = save ft (articles s)\<rparr>) \<and>
   (pass w c m init s1 \<and> int (length (articles s1)) < m \<and>
    not_html (fst (fetch_html w (listing_url c 2) s1)) \<longrightarrow>
      (\<exists>r. scrape_articles w c m ft = Some r \<and> articles (final r) = articles s1 \<and>
           saved r = save ft (articles s1)))"
proof -
  have general: "scrape_articles w c m ft =
        Some \<lparr>final = s\<lparr>requests := requests s @ [listing_url c (page s)]\<rparr>,
              filename = ''hindustan_times_'' @ c @ ''_'' @ date_str w @ ''.'' @ ft,
              saved = save ft (articles s)\<rparr>"
    if h: "at_head w c m s" and g: "int (length (articles s)) < m"
      and f: "not_html (fst (fetch_html w (listing_url c (page s)) s))" for s
  proof -
    from f have "while_body w c m s = Break (s\<lparr>requests := requests s @ [listing_url c (page s)]\<rparr>)"
      by (simp add: while_body_Break)
    with g have "exits w c m s (s\<lparr>requests := requests s @ [listing_url c (page s)]\<rparr>)"
      by (simp add: exits_def)
    with h have "while_loop w c m init = Some (s\<lparr>requests := requests s @ [listing_url c (page s)]\<rparr>)"
      unfolding at_head_def by (rule while_loop_complete)
    then show ?thesis by (simp add: scrape_articles_def)
  qed
  have "\<exists>r. scrape_articles w c m ft = Some r \<and> articles (final r) = articles s1 \<and>
           saved r = save ft (articles s1)"
    if p: "pass w c m init s1" and g: "int (length (articles s1)) < m"
      and f: "not_html (fst (fetch_html w (listing_url c 2) s1))"
  proof -
    from p have "page s1 = 2" by (simp add: pass_page init_def)
    moreover from p have "at_head w c m s1" by (simp add: at_head_def)
    ultimately show ?thesis using general [of s1] g f by simp
  qed
  with general show ?thesis by blast
qed

theorem listing_failure_stops_loop_witness:
  "at_head page2_down ''business'' 5 demo_page2 \<and>
   int (length (articles demo_page2)) < 5 \<and>
   not_html (fst (fetch_html page2_down (listing_url ''business'' (page demo_page2)) demo_page2)) \<and>
   scrape_articles page2_down ''business'' 5 ''csv'' =
     Some \<lparr>final = demo_page2\<lparr>requests := requests demo_page2 @ [''https://www.hindustantimes.com/business/page-2'']\<rparr>,
           filename = ''hindustan_times_business_2024-02-01.csv'',
           saved = save ''csv'' [record_of ''/a1'', record_of ''/a2'']\<rparr> \<and>
   pass page2_down ''business'' 5 init demo_page2 \<and>
   not_html (fst (fetch_html page2_down (listing_url ''business'' 2) demo_page2)) \<and>
   (\<exists>r. scrape_articles page2_down ''business'' 5 ''csv'' = Some r \<and>
        articles (final r) = articles demo_page2 \<and> saved r = save ''csv'' (articles demo_page2))"
proof -
  have p: "pass page2_down ''business'' 5 init demo_page2"
    unfolding pass_def by code_simp
  then have h: "at_head page2_down ''business'' 5 demo_page2"
    by (simp add: at_head_def)
  have g: "int (length (articles demo_page2)) < 5"
    by code_simp
  have f: "not_html (fst (fetch_html page2_down (listing_url ''business'' (page demo_page2)) demo_page2))"
    "not_html (fst (fetch_html page2_down (listing_url ''business'' 2) demo_page2))"
    by code_simp+
  have e: "listing_url ''business'' (page demo_page2) = ''https://www.hindustantimes.com/business/page-2''"
    "date_str page2_down = ''2024-02-01''" "articles demo_page2 = [record_of ''/a1'', record_of ''/a2'']"
    by code_simp+
  from p h g f listing_failure_stops_loop [of page2_down "''business''" 5 demo_page2 "''csv''" demo_page2]
  show ?thesis by (simp add: e)
qed


text \<open>
  C6. When the request for the page of a candidate fails, \<open>extract_article\<close> returns
  \<open>None\<close>, nothing is appended, and the for loop goes on with the next candidate; the
  body of the while loop reaches its end whenever the listing page was fetched and has
  links, whatever happens to its candidates.
\<close>

theorem failed_extraction_skips_candidate:
  assumes "int (length (articles s)) < m" and "is_article_href href"
    and "Some (urljoin w BASE_URL href) \<notin> set (urls s)"
    and "not_html (fst (fetch_html w (urljoin w BASE_URL href) s))"
  shows "fst (extract_article w (urljoin w BASE_URL href) s) = None \<and>
         articles (visit_link w (Some href) s) = articles s \<and>
         for_links w m (Some href # rest) s =
           for_links w m rest (s\<lparr>requests := requests s @ [urljoin w BASE_URL href]\<rparr>) \<and>
         (\<not> not_html (fst (fetch_html w (listing_url c (page s0)) s0)) \<and>
          cartHolder (BeautifulSoup w (the (fst (fetch_html w (listing_url c (page s0)) s0)))) \<noteq> [] \<longrightarrow>
            (\<exists>s'. while_body w c m s0 = Continue s'))"
proof -
  from assms(4) have f: "not_html (requests_get w (length (requests s)) (urljoin w BASE_URL href))"
    by simp
  have v: "visit_link w (Some href) s = s\<lparr>requests := requests s @ [urljoin w BASE_URL href]\<rparr>"
    using assms(2,3) f by (rule visit_link_fail)
  have "fst (extract_article w (urljoin w BASE_URL href) s) = None"
    using f by (simp add: extract_article_result)
  moreover have "articles (visit_link w (Some href) s) = articles s"
    by (simp add: v)
  moreover have "for_links w m (Some href # rest) s =
           for_links w m rest (s\<lparr>requests := requests s @ [urljoin w BASE_URL href]\<rparr>)"
    using assms(1) by (simp add: v)
  ultimately show ?thesis by (auto simp: while_body_Continue)
qed

theorem failed_extraction_skips_candidate_witness:
  "int (length (articles flaky_s0)) < 5 \<and> is_article_href ''/a1'' \<and>
   Some (urljoin flaky BASE_URL ''/a1'') \<notin> set (urls flaky_s0) \<and>
   not_html (fst (fetch_html flaky (urljoin flaky BASE_URL ''/a1'') flaky_s0)) \<and>
   fst (extract_article flaky (urljoin flaky BASE_URL ''/a1'') flaky_s0) = None \<and>
   articles (visit_link flaky (Some ''/a1'') flaky_s0) = articles flaky_s0 \<and>
   for_links flaky 5 [Some ''/a1'', Some ''/a2''] flaky_s0 =
     for_links flaky 5 [Some ''/a2'']
       (flaky_s0\<lparr>requests := requests flaky_s0 @ [urljoin flaky BASE_URL ''/a1'']\<rparr>) \<and>
   articles (for_links flaky 5 [Some ''/a1'', Some ''/a2''] flaky_s0) = [record_of ''/a2''] \<and>
   \<not> not_html (fst (fetch_html flaky (listing_url ''business'' (page init)) init)) \<and>
   cartHolder (BeautifulSoup flaky (the (fst (fetch_html flaky (listing_url ''business'' (page init)) init)))) \<noteq> [] \<and>
   (\<exists>s'. while_body flaky ''business'' 5 init = Continue s')"
proof -
  have h: "int (length (articles flaky_s0)) < 5" "is_article_href ''/a1''"
    "Some (urljoin flaky BASE_URL ''/a1'') \<notin> set (urls flaky_s0)"
    "not_html (fst (fetch_html flaky (urljoin flaky BASE_URL ''/a1'') flaky_s0))"
    by code_simp+
  have l: "\<not> not_html (fst (fetch_html flaky (listing_url ''business'' (page init)) init))"
    "cartHolder (BeautifulSoup flaky (the (fst (fetch_html flaky (listing_url ''business'' (page init)) init)))) \<noteq> []"
    by code_simp+
  have a: "articles (for_links flaky 5 [Some ''/a1'', Some ''/a2''] flaky_s0) = [record_of ''/a2'']"
    by code_simp
  from h l a failed_extraction_skips_candidate [OF h, of "[Some ''/a2'']" "''business''" init]
  show ?thesis by blast
qed

text \<open>
  C7. A candidate whose \<open>href\<close> is absent (or empty), or contains \<open>/photos/\<close> or
  \<open>/videos/\<close>, changes nothing: no request, no record, no effect on the count. The for
  loop gives the same state with and without it, wherever it stands in the page.
\<close>

theorem non_article_links_excluded:
  assumes "link = None \<or> link = Some [] \<or>
           (\<exists>href. link = Some href \<and> (in_str ''/photos/'' href \<or> in_str ''/videos/'' href))"
  shows "visit_link w link s = s \<and>
         for_links w m (link # rest) s = for_links w m rest s \<and>
         for_links w m (before @ link # rest) s = for_links w m (before @ rest) s"
proof -
  have v: "visit_link w link s = s" for s
    using assms by (intro visit_link_skip) (auto simp: is_article_href_def)
  have step: "for_links w m (link # rest) s = for_links w m rest s" for s
    by (cases "m \<le> int (length (articles s))") (simp_all add: v for_links_done)
  from v step show ?thesis by (simp add: for_links_append)
qed

theorem non_article_links_excluded_witness:
  "(Some ''/photos/x'' = None \<or> Some ''/photos/x'' = Some [] \<or>
     (\<exists>href. Some ''/photos/x'' = Some href \<and> (in_str ''/photos/'' href \<or> in_str ''/videos/'' href))) \<and>
   visit_link demo (Some ''/photos/x'') demo_mid = demo_mid \<and>
   for_links demo 3 [Some ''/photos/x'', Some ''/a2'', Some ''/a1''] demo_mid =
     for_links demo 3 [Some ''/a2'', Some ''/a1''] demo_mid \<and>
   for_links demo 3 ([Some ''/a1'', None] @ [Some ''/photos/x'', Some ''/a2'', Some ''/a1'']) (init\<lparr>requests := [''https://www.hindustantimes.com/business/'']\<rparr>) =
     for_links demo 3 ([Some ''/a1'', None] @ [Some ''/a2'', Some ''/a1'']) (init\<lparr>requests := [''https://www.hindustantimes.com/business/'']\<rparr>) \<and>
   urls (for_links demo 3 [Some ''/a1'', None, Some ''/photos/x'', Some ''/a2'', Some ''/a1''] (init\<lparr>requests := [''https://www.hindustantimes.com/business/'']\<rparr>)) =
     [Some ''https://www.hindustantimes.com/a1'', Some ''https://www.hindustantimes.com/a2'']"
proof -
  have p: "in_str ''/photos/'' ''/photos/x''" by code_simp
  then have h: "Some ''/photos/x'' = None \<or> Some ''/photos/x'' = Some [] \<or>
     (\<exists>href. Some ''/photos/x'' = Some href \<and> (in_str ''/photos/'' href \<or> in_str ''/videos/'' href))"
    by blast
  have u: "urls (for_links demo 3 [Some ''/a1'', None, Some ''/photos/x'', Some ''/a2'', Some ''/a1''] (init\<lparr>requests := [''https://www.hindustantimes.com/business/'']\<rparr>)) =
     [Some ''https://www.hindustantimes.com/a1'', Some ''https://www.hindustantimes.com/a2'']"
    by code_simp
  from h u
    non_article_links_excluded [OF h, of demo demo_mid 3 "[Some ''/a2'', Some ''/a1'']" "[]"]
    non_article_links_excluded [OF h, of demo "init\<lparr>requests := [''https://www.hindustantimes.com/business/'']\<rparr>" 3
          "[Some ''/a2'', Some ''/a1'']" "[Some ''/a1'', None]"]
  show ?thesis by blast
qed

text \<open>
  C10. A failed extraction leaves the accumulated sequence as it was and the URL unseen.
  When the next candidate resolves to the same URL and the target is unmet, the URL
  is requested a second time, and its record is appended if that request succeeds.
\<close>

theorem failed_url_fetched_again:
  assumes "int (length (articles s)) < m"
    and "is_article_href href" and "is_article_href href'"
    and "urljoin w BASE_URL href = u" and "urljoin w BASE_URL href' = u"
    and "Some u \<notin> set (urls s)"
    and "not_html (fst (fetch_html w u s))"
  shows "articles (visit_link w (Some href) s) = articles s \<and>
         Some u \<notin> set (urls (visit_link w (Some href) s)) \<and>
         requests (for_links w m [Some href, Some href'] s) = requests s @ [u, u] \<and>
         articles (for_links w m [Some href, Some href'] s) =
           (if not_html (requests_get w (Suc (length (requests s))) u) then articles s
            else articles s @
              [build_article (BeautifulSoup w (the (requests_get w (Suc (length (requests s))) u))) u])"
proof -
  let ?s' = "s\<lparr>requests := requests s @ [u]\<rparr>"
  from assms(7) have f: "not_html (requests_get w (length (requests s)) (urljoin w BASE_URL href))"
    by (simp add: assms(4))
  have v: "visit_link w (Some href) s = ?s'"
    using visit_link_fail [OF assms(2) _ f] assms(4,6) by simp
  have unseen: "Some (urljoin w BASE_URL href') \<notin> set (urls ?s')"
    using assms(5,6) by (simp add: urls_def)
  have g: "int (length (articles ?s')) < m" using assms(1) by simp
  have two: "for_links w m [Some href, Some href'] s = visit_link w (Some href') ?s'"
    using assms(1) g by (simp add: v)
  show ?thesis
  proof (cases "not_html (requests_get w (Suc (length (requests s))) u)")
    case True
    then have "visit_link w (Some href') ?s' = ?s'\<lparr>requests := requests ?s' @ [u]\<rparr>"
      using visit_link_fail [OF assms(3) unseen] assms(5) by simp
    with True v assms(6) two show ?thesis by (simp add: urls_def)
  next
    case False
    then have "visit_link w (Some href') ?s' =
      ?s'\<lparr>requests := requests ?s' @ [u],
          articles := articles ?s' @
            [build_article (BeautifulSoup w (the (requests_get w (Suc (length (requests s))) u))) u]\<rparr>"
      using visit_link_ok [OF assms(3) unseen] assms(5) by simp
    with False v assms(6) two show ?thesis by (simp add: urls_def)
  qed
qed


theorem failed_url_fetched_again_witness:
  "int (length (articles flaky_s0)) < 5 \<and> is_article_href ''/a1'' \<and>
   urljoin flaky BASE_URL ''/a1'' = ''https://www.hindustantimes.com/a1'' \<and>
   Some ''https://www.hindustantimes.com/a1'' \<notin> set (urls flaky_s0) \<and>
   not_html (fst (fetch_html flaky ''https://www.hindustantimes.com/a1'' flaky_s0)) \<and>
   articles (visit_link flaky (Some ''/a1'') flaky_s0) = articles flaky_s0 \<and>
   Some ''https://www.hindustantimes.com/a1'' \<notin> set (urls (visit_link flaky (Some ''/a1'') flaky_s0)) \<and>
   requests (for_links flaky 5 [Some ''/a1'', Some ''/a1''] flaky_s0) =
     requests flaky_s0 @ [''https://www.hindustantimes.com/a1'', ''https://www.hindustantimes.com/a1''] \<and>
   articles (for_links flaky 5 [Some ''/a1'', Some ''/a1''] flaky_s0) = [record_of ''/a1'']"
proof -
  have h: "int (length (articles flaky_s0)) < 5" "is_article_href ''/a1''" "is_article_href ''/a1''"
    "urljoin flaky BASE_URL ''/a1'' = ''https://www.hindustantimes.com/a1''"
    "urljoin flaky BASE_URL ''/a1'' = ''https://www.hindustantimes.com/a1''"
    "Some ''https://www.hindustantimes.com/a1'' \<notin> set (urls flaky_s0)"
    "not_html (fst (fetch_html flaky ''https://www.hindustantimes.com/a1'' flaky_s0))"
    by code_simp+
  have again: "\<not> not_html (requests_get flaky (Suc (length (requests flaky_s0))) ''https://www.hindustantimes.com/a1'')"
    by code_simp
  have r: "articles flaky_s0 @ [build_article (BeautifulSoup flaky (the (requests_get flaky (Suc (length (requests flaky_s0))) ''https://www.hindustantimes.com/a1''))) ''https://www.hindustantimes.com/a1''] = [record_of ''/a1'']"
    by code_simp
  from h again r failed_url_fetched_again [OF h]
  show ?thesis by (simp del: for_links.simps)
qed

text \<open>
  C4. Whenever the page is fetched, \<open>extract_article\<close> returns a record, and every record
  it returns has exactly the six fields Title, Author, Published Time, URL, Categories
  and Full Text, in this order, each with a string value. When there is no \<open>h1\<close>, no
  author element, no \<open>span.dateTime\<close>, no breadcrumb anchor or no \<open>div.storyDetails\<close>,
  the field is the string \<open>N/A\<close>. (When the page is not fetched there is no record:
  see C6.)
\<close>

theorem extracted_record_has_six_fields:
  assumes "sp = BeautifulSoup w (the (fst (fetch_html w url s)))"
  shows "(\<not> not_html (fst (fetch_html w url s)) \<longrightarrow> (\<exists>a. fst (extract_article w url s) = Some a)) \<and>
    (fst (extract_article w url s) = Some a \<longrightarrow>
       map fst a = [''Title'', ''Author'', ''Published Time'', ''URL'', ''Categories'', ''Full Text''] \<and>
       (\<forall>k \<in> set keys. \<exists>v. map_of a k = Some v) \<and>
       (h1 sp = None \<longrightarrow> map_of a ''Title'' = Some ''N/A'') \<and>
       (author sp = None \<longrightarrow> map_of a ''Author'' = Some ''N/A'') \<and>
       (dateTime sp = None \<longrightarrow> map_of a ''Published Time'' = Some ''N/A'') \<and>
       (breadcrumb sp = [] \<longrightarrow> map_of a ''Categories'' = Some ''N/A'') \<and>
       (storyDetails sp = None \<longrightarrow> map_of a ''Full Text'' = Some ''N/A''))"
proof -
  have "map fst (build_article sp url) =
      [''Title'', ''Author'', ''Published Time'', ''URL'', ''Categories'', ''Full Text'']"
    by (simp add: build_article_def)
  moreover have "\<forall>k \<in> set keys. \<exists>v. map_of (build_article sp url) k = Some v"
    by (simp add: build_article_def keys_def)
  moreover have "h1 sp = None \<longrightarrow> map_of (build_article sp url) ''Title'' = Some ''N/A''"
    by (simp add: build_article_def)
  moreover have "author sp = None \<longrightarrow> map_of (build_article sp url) ''Author'' = Some ''N/A''"
    by (simp add: build_article_def)
  moreover have "dateTime sp = None \<longrightarrow> map_of (build_article sp url) ''Published Time'' = Some ''N/A''"
    by (simp add: build_article_def)
  moreover have "breadcrumb sp = [] \<longrightarrow> map_of (build_article sp url) ''Categories'' = Some ''N/A''"
    by (simp add: build_article_def)
  moreover have "storyDetails sp = None \<longrightarrow> map_of (build_article sp url) ''Full Text'' = Some ''N/A''"
    by (simp add: build_article_def)
  ultimately show ?thesis
    unfolding extract_article_Some assms by blast
qed

theorem extracted_record_has_six_fields_witness:
  "listing_soup [] =
     BeautifulSoup demo (the (fst (fetch_html demo ''https://www.hindustantimes.com/business/page-3'' init))) \<and>
   \<not> not_html (fst (fetch_html demo ''https://www.hindustantimes.com/business/page-3'' init)) \<and>
   fst (extract_article demo ''https://www.hindustantimes.com/business/page-3'' init) =
     Some [(''Title'', ''N/A''), (''Author'', ''N/A''), (''Published Time'', ''N/A''),
           (''URL'', ''https://www.hindustantimes.com/business/page-3''),
           (''Categories'', ''N/A''), (''Full Text'', ''N/A'')] \<and>
   h1 (listing_soup []) = None \<and> author (listing_soup []) = None \<and>
   dateTime (listing_soup []) = None \<and> breadcrumb (listing_soup []) = [] \<and>
   storyDetails (listing_soup []) = None"
proof -
  have sp: "listing_soup [] =
     BeautifulSoup demo (the (fst (fetch_html demo ''https://www.hindustantimes.com/business/page-3'' init)))"
    by code_simp
  have ok: "\<not> not_html (fst (fetch_html demo ''https://www.hindustantimes.com/business/page-3'' init))"
    by code_simp
  have a: "fst (extract_article demo ''https://www.hindustantimes.com/business/page-3'' init) =
     Some [(''Title'', ''N/A''), (''Author'', ''N/A''), (''Published Time'', ''N/A''),
           (''URL'', ''https://www.hindustantimes.com/business/page-3''),
           (''Categories'', ''N/A''), (''Full Text'', ''N/A'')]"
    by code_simp
  have absent: "h1 (listing_soup []) = None" "author (listing_soup []) = None"
    "dateTime (listing_soup []) = None" "breadcrumb (listing_soup []) = []"
    "storyDetails (listing_soup []) = None"
    by (simp_all add: listing_soup_def)
  from sp ok a absent extracted_record_has_six_fields [OF sp, of
     "[(''Title'', ''N/A''), (''Author'', ''N/A''), (''Published Time'', ''N/A''),
       (''URL'', ''https://www.hindustantimes.com/business/page-3''),
       (''Categories'', ''N/A''), (''Full Text'', ''N/A'')]"]
  show ?thesis by blast
qed

text \<open>
  C5. Two listing pages of five candidates (the third page may hold anything), all ten
  passing the filter, resolving to ten distinct URLs and fetched with success, and a
  target of 10: the run ends with exactly 10 records whose URLs are these ten, in
  order. The requests are the bare category path, the five articles of page 1, the
  path \<open>page-2\<close> and the five articles of page 2, and no other: page 3 is not
  requested. Page 1 is the bare category path and every page \<open>p > 1\<close> the path
  \<open>page-p\<close>.
\<close>

theorem two_pages_of_five_reach_ten:
  assumes "\<forall>n. requests_get w n (listing_url c 1) = Some l1" and "l1 \<noteq> []"
    and "\<forall>n. requests_get w n (listing_url c 2) = Some l2" and "l2 \<noteq> []"
    and "cartHolder (BeautifulSoup w l1) = map Some hs1" and "length hs1 = 5"
    and "cartHolder (BeautifulSoup w l2) = map Some hs2" and "length hs2 = 5"
    and "\<forall>h\<in>set (hs1 @ hs2). is_article_href h"
    and "distinct (map (urljoin w BASE_URL) (hs1 @ hs2))"
    and "\<forall>h\<in>set (hs1 @ hs2). \<forall>n. \<not> not_html (requests_get w n (urljoin w BASE_URL h))"
  shows "\<exists>t. scrape_articles w c 10 ft =
              Some \<lparr>final = t, filename = ''hindustan_times_'' @ c @ ''_'' @ date_str w @ ''.'' @ ft,
                    saved = save ft (articles t)\<rparr> \<and>
            length (articles t) = 10 \<and>
            urls t = map (\<lambda>h. Some (urljoin w BASE_URL h)) (hs1 @ hs2) \<and>
            distinct (urls t) \<and>
            requests t = listing_url c 1 # map (urljoin w BASE_URL) hs1 @
                         listing_url c 2 # map (urljoin w BASE_URL) hs2 \<and>
            (listing_url c 3 \<notin> set (map (urljoin w BASE_URL) (hs1 @ hs2)) \<longrightarrow>
               listing_url c 3 \<notin> set (requests t)) \<and>
            listing_url c 1 = BASE_URL @ ''/'' @ c @ ''/'' \<and>
            (\<forall>p>1. listing_url c p = BASE_URL @ ''/'' @ c @ ''/page-'' @ str_nat p)"
proof -
  let ?J = "urljoin w BASE_URL"
  let ?a = "init\<lparr>requests := [listing_url c 1]\<rparr>"
  let ?b = "for_links w 10 (map Some hs1) ?a"
  let ?s1 = "?b\<lparr>page := 2\<rparr>"
  let ?c = "?s1\<lparr>requests := requests ?s1 @ [listing_url c 2]\<rparr>"
  let ?d = "for_links w 10 (map Some hs2) ?c"
  let ?t = "?d\<lparr>page := 3\<rparr>"
  have fb: "requests ?b = requests ?a @ map ?J hs1 \<and>
            urls ?b = urls ?a @ map (\<lambda>h. Some (?J h)) hs1"
  proof (rule for_links_fresh)
    show "\<forall>h\<in>set hs1. is_article_href h" using assms(9) by simp
    show "distinct (map ?J hs1)" using assms(10) by simp
    show "\<forall>h\<in>set hs1. Some (?J h) \<notin> set (urls ?a)" by (simp add: urls_def init_def)
    show "\<forall>h\<in>set hs1. \<forall>n. \<not> not_html (requests_get w n (?J h))" using assms(11) by simp
    show "int (length (articles ?a) + length hs1) \<le> 10" using assms(6) by (simp add: init_def)
  qed
  then have rb: "requests ?b = listing_url c 1 # map ?J hs1"
    and ub: "urls ?b = map (\<lambda>h. Some (?J h)) hs1"
    by (simp_all add: urls_def init_def)
  from ub have lb: "length (articles ?b) = 5"
    using assms(6) length_urls [of ?b] by simp
  have uc: "urls ?c = map (\<lambda>h. Some (?J h)) hs1"
    using ub by simp
  have fd: "requests ?d = requests ?c @ map ?J hs2 \<and>
            urls ?d = urls ?c @ map (\<lambda>h. Some (?J h)) hs2"
  proof (rule for_links_fresh)
    show "\<forall>h\<in>set hs2. is_article_href h" using assms(9) by simp
    show "distinct (map ?J hs2)" using assms(10) by simp
    show "\<forall>h\<in>set hs2. Some (?J h) \<notin> set (urls ?c)"
    proof
      fix h assume h: "h \<in> set hs2"
      from assms(10) have "?J ` set hs1 \<inter> ?J ` set hs2 = {}" by simp
      with h have "?J h \<notin> ?J ` set hs1" by blast
      then show "Some (?J h) \<notin> set (urls ?c)" unfolding uc by auto
    qed
    show "\<forall>h\<in>set hs2. \<forall>n. \<not> not_html (requests_get w n (?J h))" using assms(11) by simp
    show "int (length (articles ?c) + length hs2) \<le> 10" using assms(8) lb by simp
  qed
  with rb ub have rd: "requests ?t = listing_url c 1 # map ?J hs1 @ listing_url c 2 # map ?J hs2"
    and ud: "urls ?t = map (\<lambda>h. Some (?J h)) (hs1 @ hs2)"
    by simp_all
  from ud have lt: "length (articles ?t) = 10"
    using assms(6,8) length_urls [of ?t] by simp
  have "while_body w c 10 init = Continue ?s1"
    using assms(1,2,5,6) by (subst while_body_Continue) (auto simp: init_def not_html_def)
  then have p1: "pass w c 10 init ?s1"
    by (simp add: pass_def init_def)
  have "while_body w c 10 ?s1 = Continue ?t"
    using assms(3,4,7,8) by (subst while_body_Continue) (auto simp: not_html_def)
  then have p2: "pass w c 10 ?s1 ?t"
    using lb by (simp add: pass_def)
  have "exits w c 10 ?t ?t"
    using lt by (simp add: exits_def)
  with p1 p2 have "while_loop w c 10 init = Some ?t"
    by (blast intro: while_loop_complete rtranclp.rtrancl_into_rtrancl)
  then have run: "scrape_articles w c 10 ft =
      Some \<lparr>final = ?t, filename = ''hindustan_times_'' @ c @ ''_'' @ date_str w @ ''.'' @ ft,
            saved = save ft (articles ?t)\<rparr>"
    by (simp add: scrape_articles_def)
  have dist: "distinct (urls ?t)"
  proof -
    have "distinct (map Some (map ?J (hs1 @ hs2)))"
      using assms(10) unfolding distinct_map [of Some] by (blast intro: inj_onI)
    moreover have "urls ?t = map Some (map ?J (hs1 @ hs2))"
      unfolding ud by simp
    ultimately show ?thesis by (simp only:)
  qed
  have no3: "listing_url c 3 \<notin> set (map ?J (hs1 @ hs2)) \<longrightarrow> listing_url c 3 \<notin> set (requests ?t)"
    unfolding rd using listing_url_3_not_1_2 [of c] by auto
  have urls: "listing_url c 1 = BASE_URL @ ''/'' @ c @ ''/''"
    "\<forall>p>1. listing_url c p = BASE_URL @ ''/'' @ c @ ''/page-'' @ str_nat p"
    by (simp_all add: listing_url_def)
  from run lt ud dist rd no3 urls show ?thesis by blast
qed


theorem two_pages_of_five_reach_ten_witness:
  "(\<forall>n. requests_get three_pages n (listing_url ''business'' 1) = Some ''1'') \<and>
   (\<forall>n. requests_get three_pages n (listing_url ''business'' 2) = Some ''2'') \<and>
   cartHolder (BeautifulSoup three_pages ''1'') = map Some [''/a1'', ''/a2'', ''/a3'', ''/a4'', ''/a5''] \<and>
   cartHolder (BeautifulSoup three_pages ''2'') = map Some [''/b1'', ''/b2'', ''/b3'', ''/b4'', ''/b5''] \<and>
   list_all is_article_href
     ([''/a1'', ''/a2'', ''/a3'', ''/a4'', ''/a5''] @ [''/b1'', ''/b2'', ''/b3'', ''/b4'', ''/b5'']) \<and>
   distinct (map (urljoin three_pages BASE_URL)
     ([''/a1'', ''/a2'', ''/a3'', ''/a4'', ''/a5''] @ [''/b1'', ''/b2'', ''/b3'', ''/b4'', ''/b5''])) \<and>
   (\<exists>t. scrape_articles three_pages ''business'' 10 ''xlsx'' =
          Some \<lparr>final = t, filename = ''hindustan_times_business_2024-02-01.xlsx'',
                saved = save ''xlsx'' (articles t)\<rparr> \<and>
        length (articles t) = 10 \<and>
        urls t =
          [Some ''https://www.hindustantimes.com/a1'', Some ''https://www.hindustantimes.com/a2'',
           Some ''https://www.hindustantimes.com/a3'', Some ''https://www.hindustantimes.com/a4'',
           Some ''https://www.hindustantimes.com/a5'', Some ''https://www.hindustantimes.com/b1'',
           Some ''https://www.hindustantimes.com/b2'', Some ''https://www.hindustantimes.com/b3'',
           Some ''https://www.hindustantimes.com/b4'', Some ''https://www.hindustantimes.com/b5''] \<and>
        requests t =
          [''https://www.hindustantimes.com/business/'',
           ''https://www.hindustantimes.com/a1'', ''https://www.hindustantimes.com/a2'',
           ''https://www.hindustantimes.com/a3'', ''https://www.hindustantimes.com/a4'',
           ''https://www.hindustantimes.com/a5'',
           ''https://www.hindustantimes.com/business/page-2'',
           ''https://www.hindustantimes.com/b1'', ''https://www.hindustantimes.com/b2'',
           ''https://www.hindustantimes.com/b3'', ''https://www.hindustantimes.com/b4'',
           ''https://www.hindustantimes.com/b5''] \<and>
        ''https://www.hindustantimes.com/business/page-3'' \<notin> set (requests t))"
proof -
  let ?A = "[''/a1'', ''/a2'', ''/a3'', ''/a4'', ''/a5'']"
  let ?B = "[''/b1'', ''/b2'', ''/b3'', ''/b4'', ''/b5'']"
  have l: "listing_url ''business'' 1 = ''https://www.hindustantimes.com/business/''"
    "listing_url ''business'' 2 = ''https://www.hindustantimes.com/business/page-2''"
    "listing_url ''business'' 3 = ''https://www.hindustantimes.com/business/page-3''"
    by code_simp+
  have j: "urljoin three_pages BASE_URL h = ''https://www.hindustantimes.com'' @ h" for h
    by (simp add: three_pages_def site_def BASE_URL_def)
  have h1: "\<forall>n. requests_get three_pages n (listing_url ''business'' 1) = Some ''1''"
    unfolding l by (simp add: three_pages_def site_def)
  have h2: "''1'' \<noteq> []" by simp
  have h3: "\<forall>n. requests_get three_pages n (listing_url ''business'' 2) = Some ''2''"
    unfolding l by (simp add: three_pages_def site_def)
  have h4: "''2'' \<noteq> []" by simp
  have h5: "cartHolder (BeautifulSoup three_pages ''1'') = map Some ?A"
    by (simp add: three_pages_def site_def listing_soup_def)
  have h6: "length ?A = 5" by simp
  have h7: "cartHolder (BeautifulSoup three_pages ''2'') = map Some ?B"
    by (simp add: three_pages_def site_def listing_soup_def)
  have h8: "length ?B = 5" by simp
  have la: "list_all is_article_href (?A @ ?B)" by code_simp
  then have h9: "\<forall>h\<in>set (?A @ ?B). is_article_href h"
    unfolding list_all_iff .
  have h10: "distinct (map (urljoin three_pages BASE_URL) (?A @ ?B))"
    by code_simp
  have h11: "\<forall>h\<in>set (?A @ ?B). \<forall>n. \<not> not_html (requests_get three_pages n (urljoin three_pages BASE_URL h))"
    unfolding j by (simp add: three_pages_def site_def not_html_def)
  have d: "date_str three_pages = ''2024-02-01''"
    by (simp add: three_pages_def site_def)
  from two_pages_of_five_reach_ten [OF h1 h2 h3 h4 h5 h6 h7 h8 h9 h10 h11, of "''xlsx''"]
  obtain t where t: "scrape_articles three_pages ''business'' 10 ''xlsx'' =
          Some \<lparr>final = t, filename = ''hindustan_times_'' @ ''business'' @ ''_'' @ date_str three_pages @ ''.'' @ ''xlsx'',
                saved = save ''xlsx'' (articles t)\<rparr>"
      "length (articles t) = 10"
      "urls t = map (\<lambda>h. Some (urljoin three_pages BASE_URL h)) (?A @ ?B)"
      "requests t = listing_url ''business'' 1 # map (urljoin three_pages BASE_URL) ?A @
                    listing_url ''business'' 2 # map (urljoin three_pages BASE_URL) ?B"
      "listing_url ''business'' 3 \<notin> set (map (urljoin three_pages BASE_URL) (?A @ ?B)) \<longrightarrow>
         listing_url ''business'' 3 \<notin> set (requests t)"
    by blast
  have n3: "listing_url ''business'' 3 \<notin> set (map (urljoin three_pages BASE_URL) (?A @ ?B))"
    by code_simp
  have "''https://www.hindustantimes.com/business/page-3'' \<notin> set (requests t)"
    using t(5) n3 unfolding l by blast
  moreover have "scrape_articles three_pages ''business'' 10 ''xlsx'' =
          Some \<lparr>final = t, filename = ''hindustan_times_business_2024-02-01.xlsx'',
                saved = save ''xlsx'' (articles t)\<rparr>"
    using t(1) by (simp add: d)
  moreover have "urls t =
          [Some ''https://www.hindustantimes.com/a1'', Some ''https://www.hindustantimes.com/a2'',
           Some ''https://www.hindustantimes.com/a3'', Some ''https://www.hindustantimes.com/a4'',
           Some ''https://www.hindustantimes.com/a5'', Some ''https://www.hindustantimes.com/b1'',
           Some ''https://www.hindustantimes.com/b2'', Some ''https://www.hindustantimes.com/b3'',
           Some ''https://www.hindustantimes.com/b4'', Some ''https://www.hindustantimes.com/b5'']"
    unfolding t(3) j by simp
  moreover have "requests t =
          [''https://www.hindustantimes.com/business/'',
           ''https://www.hindustantimes.com/a1'', ''https://www.hindustantimes.com/a2'',
           ''https://www.hindustantimes.com/a3'', ''https://www.hindustantimes.com/a4'',
           ''https://www.hindustantimes.com/a5'',
           ''https://www.hindustantimes.com/business/page-2'',
           ''https://www.hindustantimes.com/b1'', ''https://www.hindustantimes.com/b2'',
           ''https://www.hindustantimes.com/b3'', ''https://www.hindustantimes.com/b4'',
           ''https://www.hindustantimes.com/b5'']"
    unfolding t(4) j l by simp
  ultimately show ?thesis
    using h1 h3 h5 h7 la h10 t(2) by blast
qed

text \<open>
  C8. The text written by \<open>save_to_txt\<close> is, for the records numbered from 1 in their
  order, the line \<open>ARTICLE #i\<close>, a line of 40 \<open>=\<close>, for each field of the record the
  line \<open>name:\<close>, the value and an empty line, then a line of 80 \<open>-\<close> and an empty
  line. For two records these are the lines of record 1 followed by those of record 2.
\<close>

theorem save_to_txt_layout:
  "save_to_txt arts = spec_txt arts \<and>
   save_to_txt [a, b] = unlines (spec_record_lines 1 a @ spec_record_lines 2 b) \<and>
   hd (spec_record_lines 1 a) = ''ARTICLE #1'' \<and> hd (spec_record_lines 2 b) = ''ARTICLE #2''"
proof -
  have general: "save_to_txt arts = spec_txt arts"
    by (simp add: save_to_txt_def spec_txt_def txt_loop_lines)
  have e: "enumerate 1 [a, b] = [(1, a), (2, b)]"
    by (simp add: numeral_2_eq_2)
  have two: "save_to_txt [a, b] = unlines (spec_record_lines 1 a @ spec_record_lines 2 b)"
    unfolding save_to_txt_def txt_loop_lines e by simp
  have n: "str_nat 1 = ''1''" "str_nat 2 = ''2''" by code_simp+
  have h: "hd (spec_record_lines 1 a) = ''ARTICLE #1''" "hd (spec_record_lines 2 b) = ''ARTICLE #2''"
    unfolding spec_record_lines_def n by simp_all
  from general two h show ?thesis by simp
qed


text \<open>
  C9. With exactly one breadcrumb anchor the field Categories is the empty string, the
  join of the empty rest, and not \<open>N/A\<close>. The branch that gives \<open>N/A\<close> is taken with no
  anchor only: with one anchor or more the field is the comma-join of the stripped
  texts of all anchors but the first.
\<close>

theorem single_breadcrumb_gives_empty_categories:
  assumes "fst (extract_article w url s) = Some a"
    and "sp = BeautifulSoup w (the (fst (fetch_html w url s)))"
  shows "(length (breadcrumb sp) = 1 \<longrightarrow>
            map_of a ''Categories'' = Some [] \<and> map_of a ''Categories'' \<noteq> Some ''N/A'') \<and>
         (breadcrumb sp = [] \<longrightarrow> map_of a ''Categories'' = Some ''N/A'') \<and>
         (breadcrumb sp \<noteq> [] \<longrightarrow>
            map_of a ''Categories'' = Some (join '', '' (map strip (tl (breadcrumb sp)))))"
proof -
  from assms have a: "a = build_article sp url"
    by (simp add: extract_article_Some)
  have "length (breadcrumb sp) = 1 \<Longrightarrow> tl (breadcrumb sp) = []"
    by (cases "breadcrumb sp") simp_all
  then show ?thesis
    by (auto simp: a build_article_def)
qed

theorem single_breadcrumb_gives_empty_categories_witness:
  "fst (extract_article (crumbs [''Home'']) ''https://www.hindustantimes.com/a1'' init) =
     Some [(''Title'', ''Budget day''), (''Author'', ''N/A''), (''Published Time'', ''Feb 01, 2024''),
           (''URL'', ''https://www.hindustantimes.com/a1''), (''Categories'', []),
           (''Full Text'', ''First.'' @ [NL, NL] @ ''Second.'')] \<and>
   length (breadcrumb (article_soup\<lparr>breadcrumb := [''Home'']\<rparr>)) = 1 \<and>
   map_of [(''Title'', ''Budget day''), (''Author'', ''N/A''), (''Published Time'', ''Feb 01, 2024''),
           (''URL'', ''https://www.hindustantimes.com/a1''), (''Categories'', []),
           (''Full Text'', ''First.'' @ [NL, NL] @ ''Second.'')] ''Categories'' = Some [] \<and>
   fst (extract_article (crumbs []) ''https://www.hindustantimes.com/a1'' init) =
     Some [(''Title'', ''Budget day''), (''Author'', ''N/A''), (''Published Time'', ''Feb 01, 2024''),
           (''URL'', ''https://www.hindustantimes.com/a1''), (''Categories'', ''N/A''),
           (''Full Text'', ''First.'' @ [NL, NL] @ ''Second.'')] \<and>
   breadcrumb (article_soup\<lparr>breadcrumb := []\<rparr>) = [] \<and>
   fst (extract_article (crumbs [''Home'', '' Business'', ''Markets '']) ''https://www.hindustantimes.com/a1'' init) =
     Some [(''Title'', ''Budget day''), (''Author'', ''N/A''), (''Published Time'', ''Feb 01, 2024''),
           (''URL'', ''https://www.hindustantimes.com/a1''), (''Categories'', ''Business, Markets''),
           (''Full Text'', ''First.'' @ [NL, NL] @ ''Second.'')] \<and>
   breadcrumb (article_soup\<lparr>breadcrumb := [''Home'', '' Business'', ''Markets '']\<rparr>) \<noteq> [] \<and>
   join '', '' (map strip (tl (breadcrumb (article_soup\<lparr>breadcrumb := [''Home'', '' Business'', ''Markets '']\<rparr>)))) =
     ''Business, Markets''"
proof -
  let ?u = "''https://www.hindustantimes.com/a1''"
  have sp: "article_soup\<lparr>breadcrumb := cs\<rparr> = BeautifulSoup (crumbs cs) (the (fst (fetch_html (crumbs cs) ?u init)))" for cs
    by (simp add: crumbs_def)
  have one: "fst (extract_article (crumbs [''Home'']) ?u init) =
     Some [(''Title'', ''Budget day''), (''Author'', ''N/A''), (''Published Time'', ''Feb 01, 2024''),
           (''URL'', ?u), (''Categories'', []),
           (''Full Text'', ''First.'' @ [NL, NL] @ ''Second.'')]"
    by code_simp
  have none: "fst (extract_article (crumbs []) ?u init) =
     Some [(''Title'', ''Budget day''), (''Author'', ''N/A''), (''Published Time'', ''Feb 01, 2024''),
           (''URL'', ?u), (''Categories'', ''N/A''),
           (''Full Text'', ''First.'' @ [NL, NL] @ ''Second.'')]"
    by code_simp
  have three: "fst (extract_article (crumbs [''Home'', '' Business'', ''Markets '']) ?u init) =
     Some [(''Title'', ''Budget day''), (''Author'', ''N/A''), (''Published Time'', ''Feb 01, 2024''),
           (''URL'', ?u), (''Categories'', ''Business, Markets''),
           (''Full Text'', ''First.'' @ [NL, NL] @ ''Second.'')]"
    by code_simp
  have j: "join '', '' (map strip (tl (breadcrumb (article_soup\<lparr>breadcrumb := [''Home'', '' Business'', ''Markets '']\<rparr>)))) =
     ''Business, Markets''"
    by code_simp
  from one none three j single_breadcrumb_gives_empty_categories [OF one sp] single_breadcrumb_gives_empty_categories [OF none sp] single_breadcrumb_gives_empty_categories [OF three sp]
  show ?thesis by simp
qed



end
